theory Spec2Isabelle
  imports Complex_Main
begin

section \<open>OSC messages, the UDP client and the sender object\<close>

text \<open>
  An OSC message is an address and a list of typed arguments, as handed to
  \<^verbatim>\<open>client.send_message(address, [args])\<close> in \<^verbatim>\<open>vmc_sender.py\<close>.
  Python floats are modelled as reals.
\<close>

datatype osc_arg = OscInt int | OscFloat real | OscString string

type_synonym osc_message = "string \<times> osc_arg list"

datatype error = OSError

text \<open>
  \<^verbatim>\<open>udp_client.SimpleUDPClient\<close> belongs to the python-osc library. Its observable
  behaviour is kept as two fields: the datagrams handed to the socket so far (oldest
  first), and a parameter that says whether the socket send of a message raises, given
  what was sent before.
\<close>

record udp_client =
  sent :: "osc_message list"
  sendto_fails :: "osc_message list \<Rightarrow> osc_message \<Rightarrow> bool"

record VMCSender =
  client :: udp_client
  ip :: string
  port :: int
  start_time :: real

text \<open>
  Modelled from the spec: the \<^verbatim>\<open>FaceInfo\<close> class is declared by the tracker, outside
  this repository. The fields read by \<^verbatim>\<open>send_tracking_data\<close> are typed as in the data
  model of the specification; \<^verbatim>\<open>eye_state\<close> is a list of lists because the code tests
  the lengths itself.
\<close>

record FaceInfo =
  success :: bool
  euler :: "(real \<times> real \<times> real) option"
  translation :: "(real \<times> real \<times> real) option"
  eye_state :: "real list list option"
  eye_blink :: "(real \<times> real) option"
  current_features :: "(string \<rightharpoonup> real) option"

section \<open>Statements that may raise\<close>

text \<open>
  A method of the sender takes the sender object and returns how it ended
  (\<open>Inl\<close> an exception, \<open>Inr ()\<close> a normal return) together with the object as it is then.
\<close>

type_synonym action = "VMCSender \<Rightarrow> (error + unit) \<times> VMCSender"

definition skip :: action where
  "skip s = (Inr (), s)"

definition then_do :: "action \<Rightarrow> action \<Rightarrow> action" where
  "then_do f g s = (case f s of (Inl e, s') \<Rightarrow> (Inl e, s') | (Inr u, s') \<Rightarrow> g s')"

definition run_seq :: "action list \<Rightarrow> action" where
  "run_seq as = foldr then_do as skip"

text \<open>\<^verbatim>\<open>self.client.send_message(address, args)\<close>: no \<^verbatim>\<open>try\<close> surrounds it anywhere.\<close>

definition client_send_message :: "string \<Rightarrow> osc_arg list \<Rightarrow> action" where
  "client_send_message address args s =
     (if sendto_fails (client s) (sent (client s)) (address, args)
      then (Inl OSError, s)
      else (Inr (), s\<lparr>client := (client s)\<lparr>sent := sent (client s) @ [(address, args)]\<rparr>\<rparr>))"

section \<open>The methods of \<^verbatim>\<open>VMCSender\<close>\<close>

definition send_blend_shape :: "string \<Rightarrow> real \<Rightarrow> action" where
  "send_blend_shape name v =
     client_send_message ''/VMC/Ext/Blend/Val'' [OscString name, OscFloat v]"

definition send_blend_shape_apply :: action where
  "send_blend_shape_apply = client_send_message ''/VMC/Ext/Blend/Apply'' []"

definition send_bone_transform ::
  "string \<Rightarrow> real \<Rightarrow> real \<Rightarrow> real \<Rightarrow> real \<Rightarrow> real \<Rightarrow> real \<Rightarrow> real \<Rightarrow> action" where
  "send_bone_transform bone_name px py pz qx qy qz qw =
     client_send_message ''/VMC/Ext/Bone/Pos''
       [OscString bone_name, OscFloat px, OscFloat py, OscFloat pz,
        OscFloat qx, OscFloat qy, OscFloat qz, OscFloat qw]"

definition send_available :: "int \<Rightarrow> int \<Rightarrow> int \<Rightarrow> action" where
  "send_available available calibration_state tracking_status =
     client_send_message ''/VMC/Ext/OK''
       [OscInt available, OscInt calibration_state, OscInt tracking_status]"

definition send_time :: "real \<Rightarrow> action" where
  "send_time time_val = client_send_message ''/VMC/Ext/T'' [OscFloat time_val]"

definition radians :: "real \<Rightarrow> real" where
  "radians d = d * (pi / 180)"

definition euler_to_quaternion :: "real \<Rightarrow> real \<Rightarrow> real \<Rightarrow> real \<times> real \<times> real \<times> real" where
  "euler_to_quaternion pitch_deg yaw_deg roll_deg =
     (let pitch = radians pitch_deg;
          yaw = radians yaw_deg;
          roll = radians roll_deg;
          cr = cos (roll * 0.5);
          sr = sin (roll * 0.5);
          cp = cos (pitch * 0.5);
          sp = sin (pitch * 0.5);
          cy = cos (yaw * 0.5);
          sy = sin (yaw * 0.5);
          qw = cr * cp * cy + sr * sp * sy;
          qx = sr * cp * cy - cr * sp * sy;
          qy = cr * sp * cy + sr * cp * sy;
          qz = cr * cp * sy - sr * sp * cy
      in (qx, qy, qz, qw))"

definition send_root_transform :: action where
  "send_root_transform =
     client_send_message ''/VMC/Ext/Root/Pos''
       [OscString ''root'', OscFloat 0, OscFloat 0, OscFloat 0,
        OscFloat 0, OscFloat 0, OscFloat 0, OscFloat 1]"

section \<open>\<^verbatim>\<open>send_tracking_data\<close>, block by block\<close>

text \<open>Head and neck bones (the block guarded by \<^verbatim>\<open>face.success and face.euler is not None\<close>).\<close>

definition head_neck_bones :: "FaceInfo \<Rightarrow> action" where
  "head_neck_bones face =
     (if success face then
        (case euler face of
           None \<Rightarrow> skip
         | Some (pitch, yaw, roll) \<Rightarrow>
             (case euler_to_quaternion (- pitch) (- yaw) roll of (qx, qy, qz, qw) \<Rightarrow>
              case (case translation face of
                      Some (t0, t1, t2) \<Rightarrow> (t0 / 1000, (- t1) / 1000, t2 / 1000)
                    | None \<Rightarrow> (0, 0, 0)) of (tx, ty, tz) \<Rightarrow>
              case euler_to_quaternion (- pitch * 0.3) (- yaw * 0.3) (roll * 0.3) of
                (neck_qx, neck_qy, neck_qz, neck_qw) \<Rightarrow>
              run_seq
                [send_bone_transform ''Head'' tx ty tz qx qy qz qw,
                 send_bone_transform ''Neck'' (tx * 0.5) (ty * 0.5) (tz * 0.5)
                   neck_qx neck_qy neck_qz neck_qw]))
      else skip)"

text \<open>
  The gaze angles of one eye entry \<^verbatim>\<open>[open, eye_y, eye_x, conf]\<close>: horizontal from
  index 2, vertical from index 1, each normalised, clamped to \<open>[-1, 1]\<close> and scaled.
  The source writes the same four lines for the right and for the left eye.
\<close>

definition gaze_degrees :: "real list \<Rightarrow> real \<times> real" where
  "gaze_degrees eye =
     (let gaze_x = (eye ! 2 - 16) / 16;
          gaze_y = (eye ! 1 - 16) / 16
      in (max (- 1) (min 1 gaze_x) * 15, max (- 1) (min 1 gaze_y) * 10))"

definition eye_bone :: "string \<Rightarrow> real list \<Rightarrow> action" where
  "eye_bone bone_name eye =
     (if 3 \<le> length eye then
        (case gaze_degrees eye of (gaze_x, gaze_y) \<Rightarrow>
         case euler_to_quaternion gaze_y gaze_x 0 of (eye_qx, eye_qy, eye_qz, eye_qw) \<Rightarrow>
           send_bone_transform bone_name 0 0 0 eye_qx eye_qy eye_qz eye_qw)
      else skip)"

definition eye_bones :: "FaceInfo \<Rightarrow> action" where
  "eye_bones face =
     (case eye_state face of
        None \<Rightarrow> skip
      | Some es \<Rightarrow>
          if 2 \<le> length es
          then run_seq [eye_bone ''RightEye'' (es ! 0), eye_bone ''LeftEye'' (es ! 1)]
          else skip)"

text \<open>Eye blinks.\<close>

definition eye_blinks :: "FaceInfo \<Rightarrow> action" where
  "eye_blinks face =
     (case eye_blink face of
        None \<Rightarrow> skip
      | Some (b0, b1) \<Rightarrow>
          (let right_blink = 1 - min 1 (max 0 b0);
               left_blink = 1 - min 1 (max 0 b1)
           in run_seq
                [send_blend_shape ''eyeBlinkRight'' right_blink,
                 send_blend_shape ''eyeBlinkLeft'' left_blink,
                 send_blend_shape ''Blink_R'' right_blink,
                 send_blend_shape ''Blink_L'' left_blink,
                 send_blend_shape ''Blink'' ((right_blink + left_blink) / 2)]))"

text \<open>Facial features, one definition for each key tested.\<close>

definition feature_mouth_open :: "(string \<rightharpoonup> real) \<Rightarrow> action" where
  "feature_mouth_open features =
     (case features ''mouth_open'' of
        None \<Rightarrow> skip
      | Some v \<Rightarrow>
          (let mouth_open = min 1 (max 0 v)
           in run_seq
                [send_blend_shape ''jawOpen'' mouth_open,
                 send_blend_shape ''A'' mouth_open,
                 send_blend_shape ''Aa'' mouth_open,
                 send_blend_shape ''A'' mouth_open]))"

definition feature_mouth_wide :: "(string \<rightharpoonup> real) \<Rightarrow> action" where
  "feature_mouth_wide features =
     (case features ''mouth_wide'' of
        None \<Rightarrow> skip
      | Some mouth_wide \<Rightarrow>
          if 0 < mouth_wide
          then run_seq
                 [send_blend_shape ''mouthSmileLeft'' (min 1 mouth_wide),
                  send_blend_shape ''mouthSmileRight'' (min 1 mouth_wide)]
          else run_seq
                 [send_blend_shape ''mouthFrownLeft'' (min 1 (- mouth_wide)),
                  send_blend_shape ''mouthFrownRight'' (min 1 (- mouth_wide))])"

text \<open>
  The four remaining keys share one shape: a positive value goes to one blend shape, any
  other value goes negated to another, both cut at 1 from above.
\<close>

definition feature_signed :: "string \<Rightarrow> string \<Rightarrow> string \<Rightarrow> (string \<rightharpoonup> real) \<Rightarrow> action" where
  "feature_signed key pos_name neg_name features =
     (case features key of
        None \<Rightarrow> skip
      | Some val \<Rightarrow>
          if 0 < val
          then send_blend_shape pos_name (min 1 val)
          else send_blend_shape neg_name (min 1 (- val)))"

definition facial_features :: "FaceInfo \<Rightarrow> action" where
  "facial_features face =
     (case current_features face of
        None \<Rightarrow> skip
      | Some features \<Rightarrow>
          run_seq
            [feature_mouth_open features,
             feature_mouth_wide features,
             feature_signed ''mouth_corner_updown_l'' ''mouthSmileLeft'' ''mouthFrownLeft'' features,
             feature_signed ''mouth_corner_updown_r'' ''mouthSmileRight'' ''mouthFrownRight'' features,
             feature_signed ''eyebrow_updown_l'' ''browInnerUp'' ''browDownLeft'' features,
             feature_signed ''eyebrow_updown_r'' ''browInnerUp'' ''browDownRight'' features])"

text \<open>Eye gaze blend shapes: the normalised offsets are only cut at 0 from below.\<close>

definition right_eye_gaze_shapes :: "real list \<Rightarrow> action" where
  "right_eye_gaze_shapes right_eye =
     (if 3 \<le> length right_eye then
        (let gaze_x_r = (right_eye ! 2 - 16) / 16;
             gaze_y_r = (right_eye ! 1 - 16) / 16
         in run_seq
              [send_blend_shape ''eyeLookOutRight'' (max 0 gaze_x_r),
               send_blend_shape ''eyeLookInRight'' (max 0 (- gaze_x_r)),
               send_blend_shape ''eyeLookUpRight'' (max 0 (- gaze_y_r)),
               send_blend_shape ''eyeLookDownRight'' (max 0 gaze_y_r),
               send_blend_shape ''EyeLookOutRight'' (max 0 gaze_x_r),
               send_blend_shape ''EyeLookInRight'' (max 0 (- gaze_x_r)),
               send_blend_shape ''EyeLookUpRight'' (max 0 (- gaze_y_r)),
               send_blend_shape ''EyeLookDownRight'' (max 0 gaze_y_r)])
      else skip)"

definition left_eye_gaze_shapes :: "real list \<Rightarrow> action" where
  "left_eye_gaze_shapes left_eye =
     (if 3 \<le> length left_eye then
        (let gaze_x_l = (left_eye ! 2 - 16) / 16;
             gaze_y_l = (left_eye ! 1 - 16) / 16
         in run_seq
              [send_blend_shape ''eyeLookInLeft'' (max 0 gaze_x_l),
               send_blend_shape ''eyeLookOutLeft'' (max 0 (- gaze_x_l)),
               send_blend_shape ''eyeLookUpLeft'' (max 0 (- gaze_y_l)),
               send_blend_shape ''eyeLookDownLeft'' (max 0 gaze_y_l),
               send_blend_shape ''EyeLookInLeft'' (max 0 gaze_x_l),
               send_blend_shape ''EyeLookOutLeft'' (max 0 (- gaze_x_l)),
               send_blend_shape ''EyeLookUpLeft'' (max 0 (- gaze_y_l)),
               send_blend_shape ''EyeLookDownLeft'' (max 0 gaze_y_l)])
      else skip)"

definition eye_gaze_blend_shapes :: "FaceInfo \<Rightarrow> action" where
  "eye_gaze_blend_shapes face =
     (case eye_state face of
        None \<Rightarrow> skip
      | Some es \<Rightarrow>
          if 2 \<le> length es
          then run_seq [right_eye_gaze_shapes (es ! 0), left_eye_gaze_shapes (es ! 1)]
          else skip)"

text \<open>
  The whole method. \<open>now\<close> is the value \<^verbatim>\<open>time.time()\<close> returns when the timestamp is
  computed; \<open>None\<close> for the face is Python's \<^verbatim>\<open>None\<close>.
\<close>

definition send_tracking_data :: "real \<Rightarrow> FaceInfo option \<Rightarrow> action" where
  "send_tracking_data now face_arg s =
     (case face_arg of
        None \<Rightarrow> (Inr (), s)
      | Some face \<Rightarrow>
          run_seq
            [send_available (if success face then 1 else 0) 3 1,
             send_time (now - start_time s),
             send_root_transform,
             head_neck_bones face,
             eye_bones face,
             eye_blinks face,
             facial_features face,
             eye_gaze_blend_shapes face,
             send_blend_shape_apply] s)"

text \<open>What a call handed to the socket: the part of the log added between two states.\<close>

definition emitted :: "VMCSender \<Rightarrow> VMCSender \<Rightarrow> osc_message list" where
  "emitted s s' = drop (length (sent (client s))) (sent (client s'))"

definition frame :: "real \<Rightarrow> FaceInfo option \<Rightarrow> VMCSender \<Rightarrow> osc_message list" where
  "frame now face_arg s = emitted s (snd (send_tracking_data now face_arg s))"

definition raised :: "real \<Rightarrow> FaceInfo option \<Rightarrow> VMCSender \<Rightarrow> bool" where
  "raised now face_arg s = (fst (send_tracking_data now face_arg s) \<noteq> Inr ())"

text \<open>A transport on which no send ever fails.\<close>

definition reliable :: "VMCSender \<Rightarrow> bool" where
  "reliable s = (\<forall>log m. \<not> sendto_fails (client s) log m)"

section \<open>Vocabulary of the properties\<close>

text \<open>The same sender on a transport whose sends all succeed.\<close>

definition unfailing :: "VMCSender \<Rightarrow> VMCSender" where
  "unfailing s = s\<lparr>client := (client s)\<lparr>sendto_fails := (\<lambda>log m. False)\<rparr>\<rparr>"

text \<open>The names of the bones, and the blend shapes with a name of a given list, in a frame.\<close>

definition bone_names :: "osc_message list \<Rightarrow> osc_arg list" where
  "bone_names ms = map (\<lambda>m. hd (snd m)) (filter (\<lambda>m. fst m = ''/VMC/Ext/Bone/Pos'') ms)"

definition shapes :: "string list \<Rightarrow> osc_message list \<Rightarrow> osc_message list" where
  "shapes names ms =
     filter (\<lambda>m. fst m = ''/VMC/Ext/Blend/Val'' \<and> hd (snd m) \<in> set (map OscString names)) ms"

text \<open>The log extended by some messages, and a list of messages sent one after the other.\<close>

definition emit :: "osc_message list \<Rightarrow> VMCSender \<Rightarrow> VMCSender" where
  "emit ms s = s\<lparr>client := (client s)\<lparr>sent := sent (client s) @ ms\<rparr>\<rparr>"

fun send_all :: "osc_message list \<Rightarrow> action" where
  "send_all [] s = (Inr (), s)"
| "send_all (m # ms) s =
     (if sendto_fails (client s) (sent (client s)) m then (Inl OSError, s)
      else send_all ms (emit [m] s))"

definition sends :: "action \<Rightarrow> (osc_message list \<Rightarrow> bool) \<Rightarrow> bool" where
  "sends a P = (\<exists>ms. P ms \<and> a = send_all ms)"

definition is_blend :: "string list \<Rightarrow> osc_message \<Rightarrow> bool" where
  "is_blend names m =
     (fst m = ''/VMC/Ext/Blend/Val'' \<and>
      (\<exists>name v. snd m = [OscString name, OscFloat v] \<and> name \<in> set names \<and> 0 \<le> v))"

definition is_bone :: "string list \<Rightarrow> osc_message \<Rightarrow> bool" where
  "is_bone names m =
     (fst m = ''/VMC/Ext/Bone/Pos'' \<and> (\<exists>name rest. snd m = OscString name # rest \<and> name \<in> set names))"

section \<open>Concrete inputs\<close>

definition test_sender :: VMCSender where
  "test_sender =
     \<lparr>client = \<lparr>sent = [], sendto_fails = (\<lambda>log m. False)\<rparr>,
      ip = ''127.0.0.1'', port = 39539, start_time = 0\<rparr>"

definition scenario_A :: FaceInfo where
  "scenario_A =
     \<lparr>success = False, euler = None, translation = None, eye_state = None,
      eye_blink = None, current_features = None\<rparr>"

definition mixed_face :: FaceInfo where
  "mixed_face =
     \<lparr>success = False, euler = None, translation = None, eye_state = None,
      eye_blink = Some (1, 1), current_features = Some [''mouth_wide'' \<mapsto> - 0.5]\<rparr>"

text \<open>A snapshot whose right eye entry is complete and whose left eye entry has two values.\<close>

definition one_short_eye :: FaceInfo where
  "one_short_eye =
     \<lparr>success = False, euler = None, translation = None,
      eye_state = Some [[1, 16, 16, 1], [1, 16]],
      eye_blink = None, current_features = None\<rparr>"

text \<open>A sender whose socket refuses every \<open>/VMC/Ext/T\<close> datagram.\<close>

definition lossy_sender :: VMCSender where
  "lossy_sender =
     \<lparr>client = \<lparr>sent = [], sendto_fails = (\<lambda>log m. fst m = ''/VMC/Ext/T'')\<rparr>,
      ip = ''127.0.0.1'', port = 39539, start_time = 0\<rparr>"

text \<open>Scenario B of the specification: both eyes fully open, nothing else present.\<close>

definition scenario_B :: FaceInfo where
  "scenario_B =
     \<lparr>success = False, euler = None, translation = None, eye_state = None,
      eye_blink = Some (1, 1), current_features = None\<rparr>"


text \<open>
  A snapshot whose right eye entry has the horizontal pixel offset 48, so that the
  normalised offset \<open>(48 - 16) / 16\<close> is 2; the left eye looks straight ahead.
\<close>

definition wide_gaze :: FaceInfo where
  "wide_gaze =
     \<lparr>success = False, euler = None, translation = None,
      eye_state = Some [[1, 16, 48, 1], [1, 16, 16, 1]],
      eye_blink = None, current_features = None\<rparr>"

section \<open>Sending a list of messages\<close>

lemma emit_Nil: "emit [] s = s"
  by (simp add: emit_def)

lemma emit_emit: "emit ys (emit xs s) = emit (xs @ ys) s"
  by (simp add: emit_def)

lemma emit_fields:
  "sent (client (emit ms s)) = sent (client s) @ ms"
  "sendto_fails (client (emit ms s)) = sendto_fails (client s)"
  "start_time (emit ms s) = start_time s"
  by (simp_all add: emit_def)

lemma emitted_emit: "emitted s (emit ms s) = ms"
  by (simp add: emitted_def emit_def)

lemma send_all_append: "then_do (send_all xs) (send_all ys) s = send_all (xs @ ys) s"
proof (induction xs arbitrary: s)
  case Nil
  show ?case by (simp add: then_do_def)
next
  case (Cons m xs)
  show ?case
  proof (cases "sendto_fails (client s) (sent (client s)) m")
    case True
    then show ?thesis by (simp add: then_do_def)
  next
    case False
    then have L: "then_do (send_all (m # xs)) (send_all ys) s =
               then_do (send_all xs) (send_all ys) (emit [m] s)"
      by (simp add: then_do_def)
    have R: "send_all ((m # xs) @ ys) s = send_all (xs @ ys) (emit [m] s)"
      using False by simp
    show ?thesis unfolding L R by (rule Cons.IH)
  qed
qed

lemma then_do_send_all: "then_do (send_all xs) (send_all ys) = send_all (xs @ ys)"
  by (rule ext) (rule send_all_append)

lemma client_send_message_send_all: "client_send_message address args = send_all [(address, args)]"
  by (rule ext) (simp add: client_send_message_def emit_def)

lemma skip_send_all: "skip = send_all []"
  by (rule ext) (simp add: skip_def)

lemma run_seq_Nil: "run_seq [] = skip"
  by (simp add: run_seq_def)

lemma run_seq_Cons: "run_seq (a # as) = then_do a (run_seq as)"
  by (simp add: run_seq_def)

lemma sends_skip: "P [] \<Longrightarrow> sends skip P"
  unfolding sends_def skip_send_all by blast

lemma sends_msg: "P [(address, args)] \<Longrightarrow> sends (client_send_message address args) P"
  unfolding sends_def client_send_message_send_all by blast

lemma sends_then:
  assumes "sends a P" and "sends b Q" and "\<And>xs ys. P xs \<Longrightarrow> Q ys \<Longrightarrow> R (xs @ ys)"
  shows "sends (then_do a b) R"
proof -
  from assms(1) obtain xs where xs: "P xs" "a = send_all xs" unfolding sends_def by blast
  from assms(2) obtain ys where ys: "Q ys" "b = send_all ys" unfolding sends_def by blast
  have "then_do a b = send_all (xs @ ys)" using xs(2) ys(2) by (simp add: then_do_send_all)
  moreover have "R (xs @ ys)" using assms(3) xs(1) ys(1) by blast
  ultimately show ?thesis unfolding sends_def by blast
qed

lemma sends_mono: "sends a P \<Longrightarrow> (\<And>ms. P ms \<Longrightarrow> Q ms) \<Longrightarrow> sends a Q"
  unfolding sends_def by blast

lemma all_skip: "sends skip (list_all q)"
  by (rule sends_skip) simp

lemma all_msg: "q (address, args) \<Longrightarrow> sends (client_send_message address args) (list_all q)"
  by (rule sends_msg) simp

lemma all_then: "sends a (list_all q) \<Longrightarrow> sends b (list_all q) \<Longrightarrow> sends (then_do a b) (list_all q)"
  by (erule sends_then) auto

lemma all_run_seq_Nil: "sends (run_seq []) (list_all q)"
  by (simp add: run_seq_Nil all_skip)

lemma all_run_seq_Cons:
  "sends a (list_all q) \<Longrightarrow> sends (run_seq as) (list_all q) \<Longrightarrow> sends (run_seq (a # as)) (list_all q)"
  by (simp add: run_seq_Cons all_then)

lemma all_mono: "sends a (list_all p) \<Longrightarrow> (\<And>m. p m \<Longrightarrow> q m) \<Longrightarrow> sends a (list_all q)"
  by (erule sends_mono) (auto simp: list_all_iff)

lemmas all_intros = all_skip all_msg all_run_seq_Nil all_run_seq_Cons

lemma all_blend: "name \<in> set names \<Longrightarrow> 0 \<le> v \<Longrightarrow> sends (send_blend_shape name v) (list_all (is_blend names))"
  unfolding send_blend_shape_def by (rule all_msg) (simp add: is_blend_def)

lemma all_bone: "name \<in> set names \<Longrightarrow> sends (send_bone_transform name px py pz qx qy qz qw) (list_all (is_bone names))"
  unfolding send_bone_transform_def by (rule all_msg) (simp add: is_bone_def)

lemma head_neck_all: "sends (head_neck_bones face) (list_all (is_bone [''Head'', ''Neck'']))"
  unfolding head_neck_bones_def
  by (auto split: option.splits prod.splits intro!: all_intros all_bone)

lemma eye_bone_all: "name \<in> set names \<Longrightarrow> sends (eye_bone name eye) (list_all (is_bone names))"
  unfolding eye_bone_def
  by (auto split: option.splits prod.splits intro!: all_intros all_bone)

lemma eye_bones_all: "sends (eye_bones face) (list_all (is_bone [''RightEye'', ''LeftEye'']))"
  unfolding eye_bones_def
  by (auto split: option.splits prod.splits intro!: all_intros eye_bone_all)

lemma eye_blinks_all:
  "sends (eye_blinks face)
     (list_all (is_blend [''eyeBlinkRight'', ''eyeBlinkLeft'', ''Blink_R'', ''Blink_L'', ''Blink'']))"
  unfolding eye_blinks_def Let_def
  by (auto split: option.splits prod.splits intro!: all_intros all_blend)


lemma feature_mouth_open_all:
  "sends (feature_mouth_open features) (list_all (is_blend [''jawOpen'', ''A'', ''Aa'']))"
  unfolding feature_mouth_open_def Let_def
  by (auto split: option.splits intro!: all_intros all_blend)

lemma feature_mouth_wide_all:
  "sends (feature_mouth_wide features)
     (list_all (is_blend [''mouthSmileLeft'', ''mouthSmileRight'', ''mouthFrownLeft'', ''mouthFrownRight'']))"
  unfolding feature_mouth_wide_def
  by (auto split: option.splits intro!: all_intros all_blend)

lemma feature_signed_all:
  "sends (feature_signed key pos_name neg_name features) (list_all (is_blend [pos_name, neg_name]))"
  unfolding feature_signed_def
  by (auto split: option.splits intro!: all_intros all_blend)

lemma is_blend_mono: "is_blend xs m \<Longrightarrow> set xs \<subseteq> set ys \<Longrightarrow> is_blend ys m"
  unfolding is_blend_def by blast

lemma all_blend_mono:
  "sends a (list_all (is_blend xs)) \<Longrightarrow> set xs \<subseteq> set ys \<Longrightarrow> sends a (list_all (is_blend ys))"
  by (erule all_mono) (rule is_blend_mono)

lemma other_features_all:
  "sends
     (run_seq
        [feature_mouth_wide features,
         feature_signed ''mouth_corner_updown_l'' ''mouthSmileLeft'' ''mouthFrownLeft'' features,
         feature_signed ''mouth_corner_updown_r'' ''mouthSmileRight'' ''mouthFrownRight'' features,
         feature_signed ''eyebrow_updown_l'' ''browInnerUp'' ''browDownLeft'' features,
         feature_signed ''eyebrow_updown_r'' ''browInnerUp'' ''browDownRight'' features])
     (list_all (is_blend [''mouthSmileLeft'', ''mouthSmileRight'', ''mouthFrownLeft'',
        ''mouthFrownRight'', ''browInnerUp'', ''browDownLeft'', ''browDownRight'']))"
  apply (intro all_intros)
      apply (rule all_blend_mono [OF feature_mouth_wide_all], simp)
     apply (rule all_blend_mono [OF feature_signed_all], simp)
    apply (rule all_blend_mono [OF feature_signed_all], simp)
   apply (rule all_blend_mono [OF feature_signed_all], simp)
  apply (rule all_blend_mono [OF feature_signed_all], simp)
  done

lemma facial_features_all:
  "sends (facial_features face)
     (list_all (is_blend [''jawOpen'', ''A'', ''Aa'', ''mouthSmileLeft'', ''mouthSmileRight'',
        ''mouthFrownLeft'', ''mouthFrownRight'', ''browInnerUp'', ''browDownLeft'',
        ''browDownRight'']))"
proof (cases "current_features face")
  case None
  then show ?thesis by (simp add: facial_features_def all_skip)
next
  case (Some features)
  have "sends (then_do (feature_mouth_open features) (run_seq
        [feature_mouth_wide features,
         feature_signed ''mouth_corner_updown_l'' ''mouthSmileLeft'' ''mouthFrownLeft'' features,
         feature_signed ''mouth_corner_updown_r'' ''mouthSmileRight'' ''mouthFrownRight'' features,
         feature_signed ''eyebrow_updown_l'' ''browInnerUp'' ''browDownLeft'' features,
         feature_signed ''eyebrow_updown_r'' ''browInnerUp'' ''browDownRight'' features]))
     (list_all (is_blend [''jawOpen'', ''A'', ''Aa'', ''mouthSmileLeft'', ''mouthSmileRight'',
        ''mouthFrownLeft'', ''mouthFrownRight'', ''browInnerUp'', ''browDownLeft'',
        ''browDownRight'']))"
    apply (rule all_then)
     apply (rule all_blend_mono [OF feature_mouth_open_all], simp)
    apply (rule all_blend_mono [OF other_features_all], simp)
    done
  then show ?thesis using Some by (simp add: facial_features_def run_seq_Cons)
qed

lemma right_eye_gaze_all:
  "sends (right_eye_gaze_shapes eye)
     (list_all (is_blend [''eyeLookOutRight'', ''eyeLookInRight'', ''eyeLookUpRight'',
        ''eyeLookDownRight'', ''EyeLookOutRight'', ''EyeLookInRight'', ''EyeLookUpRight'',
        ''EyeLookDownRight'']))"
  unfolding right_eye_gaze_shapes_def Let_def
  by (auto intro!: all_intros all_blend)

lemma left_eye_gaze_all:
  "sends (left_eye_gaze_shapes eye)
     (list_all (is_blend [''eyeLookInLeft'', ''eyeLookOutLeft'', ''eyeLookUpLeft'',
        ''eyeLookDownLeft'', ''EyeLookInLeft'', ''EyeLookOutLeft'', ''EyeLookUpLeft'',
        ''EyeLookDownLeft'']))"
  unfolding left_eye_gaze_shapes_def Let_def
  by (auto intro!: all_intros all_blend)

lemma eye_gaze_all:
  "sends (eye_gaze_blend_shapes face)
     (list_all (is_blend [''eyeLookOutRight'', ''eyeLookInRight'', ''eyeLookUpRight'',
        ''eyeLookDownRight'', ''EyeLookOutRight'', ''EyeLookInRight'', ''EyeLookUpRight'',
        ''EyeLookDownRight'', ''eyeLookInLeft'', ''eyeLookOutLeft'', ''eyeLookUpLeft'',
        ''eyeLookDownLeft'', ''EyeLookInLeft'', ''EyeLookOutLeft'', ''EyeLookUpLeft'',
        ''EyeLookDownLeft'']))"
proof (cases "eye_state face")
  case None
  then show ?thesis by (simp add: eye_gaze_blend_shapes_def all_skip)
next
  case (Some es)
  show ?thesis
  proof (cases "2 \<le> length es")
    case False
    then show ?thesis using Some by (simp add: eye_gaze_blend_shapes_def all_skip)
  next
    case True
    have "sends (run_seq [right_eye_gaze_shapes (es ! 0), left_eye_gaze_shapes (es ! 1)])
     (list_all (is_blend [''eyeLookOutRight'', ''eyeLookInRight'', ''eyeLookUpRight'',
        ''eyeLookDownRight'', ''EyeLookOutRight'', ''EyeLookInRight'', ''EyeLookUpRight'',
        ''EyeLookDownRight'', ''eyeLookInLeft'', ''eyeLookOutLeft'', ''eyeLookUpLeft'',
        ''eyeLookDownLeft'', ''EyeLookInLeft'', ''EyeLookOutLeft'', ''EyeLookUpLeft'',
        ''EyeLookDownLeft'']))"
      apply (intro all_intros)
       apply (rule all_blend_mono [OF right_eye_gaze_all], simp)
      apply (rule all_blend_mono [OF left_eye_gaze_all], simp)
      done
    then show ?thesis using Some True by (simp add: eye_gaze_blend_shapes_def)
  qed
qed

lemma frame_sends:
  assumes "sends (head_neck_bones face) P4"
    and "sends (eye_bones face) P5"
    and "sends (eye_blinks face) P6"
    and "sends (facial_features face) P7"
    and "sends (eye_gaze_blend_shapes face) P8"
  shows "\<exists>a b c d e. P4 a \<and> P5 b \<and> P6 c \<and> P7 d \<and> P8 e \<and>
           (\<forall>s. send_tracking_data now (Some face) s =
              send_all
                ([(''/VMC/Ext/OK'', [OscInt (if success face then 1 else 0), OscInt 3, OscInt 1]),
                  (''/VMC/Ext/T'', [OscFloat (now - start_time s)]),
                  (''/VMC/Ext/Root/Pos'',
                     [OscString ''root'', OscFloat 0, OscFloat 0, OscFloat 0,
                      OscFloat 0, OscFloat 0, OscFloat 0, OscFloat 1])]
                 @ a @ b @ c @ d @ e @ [(''/VMC/Ext/Blend/Apply'', [])]) s)"
proof -
  from assms(1) obtain a where a: "P4 a" "head_neck_bones face = send_all a"
    unfolding sends_def by blast
  from assms(2) obtain b where b: "P5 b" "eye_bones face = send_all b"
    unfolding sends_def by blast
  from assms(3) obtain c where c: "P6 c" "eye_blinks face = send_all c"
    unfolding sends_def by blast
  from assms(4) obtain d where d: "P7 d" "facial_features face = send_all d"
    unfolding sends_def by blast
  from assms(5) obtain e where e: "P8 e" "eye_gaze_blend_shapes face = send_all e"
    unfolding sends_def by blast
  have "\<forall>s. send_tracking_data now (Some face) s =
              send_all
                ([(''/VMC/Ext/OK'', [OscInt (if success face then 1 else 0), OscInt 3, OscInt 1]),
                  (''/VMC/Ext/T'', [OscFloat (now - start_time s)]),
                  (''/VMC/Ext/Root/Pos'',
                     [OscString ''root'', OscFloat 0, OscFloat 0, OscFloat 0,
                      OscFloat 0, OscFloat 0, OscFloat 0, OscFloat 1])]
                 @ a @ b @ c @ d @ e @ [(''/VMC/Ext/Blend/Apply'', [])]) s"
    by (simp only: send_tracking_data_def a(2) b(2) c(2) d(2) e(2)
        option.case run_seq_Cons run_seq_Nil send_available_def send_time_def
        send_root_transform_def send_blend_shape_apply_def client_send_message_send_all
        skip_send_all then_do_send_all append_Cons append_Nil append_Nil2 append_assoc simp_thms)
  with a(1) b(1) c(1) d(1) e(1) show ?thesis by blast
qed

lemma reliable_emit: "reliable (emit ms s) = reliable s"
  by (simp add: reliable_def emit_def)

lemma send_all_reliable: "reliable s \<Longrightarrow> send_all ms s = (Inr (), emit ms s)"
proof (induction ms arbitrary: s)
  case Nil
  show ?case by (simp add: emit_Nil)
next
  case (Cons m ms)
  have "\<not> sendto_fails (client s) (sent (client s)) m"
    using Cons.prems unfolding reliable_def by blast
  moreover have "send_all ms (emit [m] s) = (Inr (), emit ms (emit [m] s))"
    by (rule Cons.IH) (simp add: reliable_emit Cons.prems)
  ultimately show ?case by (simp add: emit_emit)
qed

lemma send_all_prefix:
  "\<exists>k\<le>length ms.
     snd (send_all ms s) = emit (take k ms) s \<and>
     (fst (send_all ms s) = Inr () \<longleftrightarrow> k = length ms) \<and>
     (k < length ms \<longrightarrow> sendto_fails (client s) (sent (client s) @ take k ms) (ms ! k)) \<and>
     (\<forall>j<k. \<not> sendto_fails (client s) (sent (client s) @ take j ms) (ms ! j))"
proof (induction ms arbitrary: s)
  case Nil
  show ?case by (simp add: emit_Nil)
next
  case (Cons m ms)
  show ?case
  proof (cases "sendto_fails (client s) (sent (client s)) m")
    case True
    then show ?thesis by (intro exI [of _ 0]) (simp add: emit_Nil)
  next
    case False
    from Cons.IH [of "emit [m] s"] obtain k where k: "k \<le> length ms"
      "snd (send_all ms (emit [m] s)) = emit (take k ms) (emit [m] s)"
      "fst (send_all ms (emit [m] s)) = Inr () \<longleftrightarrow> k = length ms"
      "k < length ms \<longrightarrow> sendto_fails (client s) (sent (client s) @ m # take k ms) (ms ! k)"
      "\<forall>j<k. \<not> sendto_fails (client s) (sent (client s) @ m # take j ms) (ms ! j)"
      by (auto simp: emit_fields)
    have "\<forall>j<Suc k. \<not> sendto_fails (client s) (sent (client s) @ take j (m # ms)) ((m # ms) ! j)"
    proof (intro allI impI)
      fix j assume "j < Suc k"
      then show "\<not> sendto_fails (client s) (sent (client s) @ take j (m # ms)) ((m # ms) ! j)"
        using False k(5) by (cases j) auto
    qed
    then show ?thesis using False k(1-4)
      by (intro exI [of _ "Suc k"]) (simp add: emit_emit)
  qed
qed

lemmas block_defs = head_neck_bones_def eye_bones_def eye_bone_def eye_blinks_def
  facial_features_def feature_mouth_open_def feature_mouth_wide_def feature_signed_def
  eye_gaze_blend_shapes_def right_eye_gaze_shapes_def left_eye_gaze_shapes_def

lemmas method_defs = send_available_def send_time_def send_root_transform_def
  send_blend_shape_def send_blend_shape_apply_def send_bone_transform_def

lemmas to_send_all = run_seq_Cons run_seq_Nil client_send_message_send_all skip_send_all
  then_do_send_all

lemma reliable_test_sender: "reliable test_sender"
  by (simp add: reliable_def test_sender_def)

lemma frame_of_send_all:
  assumes "reliable s" and "send_tracking_data now face_arg s = send_all ms s"
  shows "frame now face_arg s = ms" and "fst (send_tracking_data now face_arg s) = Inr ()"
  using assms by (simp_all add: frame_def send_all_reliable emitted_emit)

lemma scenario_A_send_all:
  "send_tracking_data now (Some scenario_A) s =
     send_all
       [(''/VMC/Ext/OK'', [OscInt 0, OscInt 3, OscInt 1]),
        (''/VMC/Ext/T'', [OscFloat (now - start_time s)]),
        (''/VMC/Ext/Root/Pos'',
           [OscString ''root'', OscFloat 0, OscFloat 0, OscFloat 0,
            OscFloat 0, OscFloat 0, OscFloat 0, OscFloat 1]),
        (''/VMC/Ext/Blend/Apply'', [])] s"
  by (simp add: send_tracking_data_def scenario_A_def block_defs method_defs to_send_all)

lemma frame_take:
  assumes "send_tracking_data now face_arg s = send_all ms s"
  shows "\<exists>k\<le>length ms.
     frame now face_arg s = take k ms \<and>
     (raised now face_arg s \<longleftrightarrow> k < length ms) \<and>
     (k < length ms \<longrightarrow> sendto_fails (client s) (sent (client s) @ take k ms) (ms ! k)) \<and>
     (\<forall>j<k. \<not> sendto_fails (client s) (sent (client s) @ take j ms) (ms ! j))"
proof -
  from send_all_prefix [of ms s] obtain k where k: "k \<le> length ms"
    "snd (send_all ms s) = emit (take k ms) s"
    "fst (send_all ms s) = Inr () \<longleftrightarrow> k = length ms"
    "k < length ms \<longrightarrow> sendto_fails (client s) (sent (client s) @ take k ms) (ms ! k)"
    "\<forall>j<k. \<not> sendto_fails (client s) (sent (client s) @ take j ms) (ms ! j)"
    by blast
  have "frame now face_arg s = take k ms"
    by (simp add: frame_def assms k(2) emitted_emit)
  moreover have "raised now face_arg s \<longleftrightarrow> k < length ms"
    using k(1) k(3) by (auto simp: raised_def assms)
  ultimately show ?thesis using k(1) k(4) k(5) by blast
qed

lemma not_in_addresses: "(\<And>m. m \<in> set ms \<Longrightarrow> fst m \<noteq> a) \<Longrightarrow> a \<notin> set (map fst ms)"
  by auto

lemma is_bone_address: "is_bone names m \<Longrightarrow> fst m = ''/VMC/Ext/Bone/Pos''"
  by (simp add: is_bone_def)

lemma is_blend_address: "is_blend names m \<Longrightarrow> fst m = ''/VMC/Ext/Blend/Val''"
  by (simp add: is_blend_def)

lemma frame_blocks:
  "\<exists>a b c d e.
     list_all (is_bone [''Head'', ''Neck'']) a \<and>
     list_all (is_bone [''RightEye'', ''LeftEye'']) b \<and>
     (\<exists>names. list_all (is_blend names) c) \<and>
     (\<exists>names. list_all (is_blend names) d) \<and>
     (\<exists>names. list_all (is_blend names) e) \<and>
     (\<forall>s. send_tracking_data now (Some face) s =
        send_all
          ([(''/VMC/Ext/OK'', [OscInt (if success face then 1 else 0), OscInt 3, OscInt 1]),
            (''/VMC/Ext/T'', [OscFloat (now - start_time s)]),
            (''/VMC/Ext/Root/Pos'',
               [OscString ''root'', OscFloat 0, OscFloat 0, OscFloat 0,
                OscFloat 0, OscFloat 0, OscFloat 0, OscFloat 1])]
           @ a @ b @ c @ d @ e @ [(''/VMC/Ext/Blend/Apply'', [])]) s)"
proof -
  have c: "sends (eye_blinks face) (\<lambda>ms. \<exists>names. list_all (is_blend names) ms)"
    by (rule sends_mono [OF eye_blinks_all]) blast
  have d: "sends (facial_features face) (\<lambda>ms. \<exists>names. list_all (is_blend names) ms)"
    by (rule sends_mono [OF facial_features_all]) blast
  have e: "sends (eye_gaze_blend_shapes face) (\<lambda>ms. \<exists>names. list_all (is_blend names) ms)"
    by (rule sends_mono [OF eye_gaze_all]) blast
  show ?thesis by (rule frame_sends [OF head_neck_all eye_bones_all c d e])
qed

text \<open>Every frame: the three opening messages, bones and blend shapes, the closing one.\<close>

lemma frame_shape:
  "\<exists>body.
     list_all (\<lambda>m. (\<exists>names. is_bone names m) \<or> (\<exists>names. is_blend names m)) body \<and>
     (\<forall>s. send_tracking_data now (Some face) s =
        send_all
          ((''/VMC/Ext/OK'', [OscInt (if success face then 1 else 0), OscInt 3, OscInt 1]) #
           (''/VMC/Ext/T'', [OscFloat (now - start_time s)]) #
           (''/VMC/Ext/Root/Pos'',
               [OscString ''root'', OscFloat 0, OscFloat 0, OscFloat 0,
                OscFloat 0, OscFloat 0, OscFloat 0, OscFloat 1]) #
           body @ [(''/VMC/Ext/Blend/Apply'', [])]) s)"
proof -
  from frame_blocks [of now face] obtain a b c d e nc nd ne where
    blocks: "list_all (is_bone [''Head'', ''Neck'']) a"
      "list_all (is_bone [''RightEye'', ''LeftEye'']) b"
      "list_all (is_blend nc) c" "list_all (is_blend nd) d" "list_all (is_blend ne) e"
    and run: "\<forall>s. send_tracking_data now (Some face) s =
        send_all
          ([(''/VMC/Ext/OK'', [OscInt (if success face then 1 else 0), OscInt 3, OscInt 1]),
            (''/VMC/Ext/T'', [OscFloat (now - start_time s)]),
            (''/VMC/Ext/Root/Pos'',
               [OscString ''root'', OscFloat 0, OscFloat 0, OscFloat 0,
                OscFloat 0, OscFloat 0, OscFloat 0, OscFloat 1])]
           @ a @ b @ c @ d @ e @ [(''/VMC/Ext/Blend/Apply'', [])]) s"
    by blast
  have "list_all (\<lambda>m. (\<exists>names. is_bone names m) \<or> (\<exists>names. is_blend names m))
          (a @ b @ c @ d @ e)"
    using blocks by (auto simp: list_all_iff)
  moreover have "\<forall>s. send_tracking_data now (Some face) s =
        send_all
          ((''/VMC/Ext/OK'', [OscInt (if success face then 1 else 0), OscInt 3, OscInt 1]) #
           (''/VMC/Ext/T'', [OscFloat (now - start_time s)]) #
           (''/VMC/Ext/Root/Pos'',
               [OscString ''root'', OscFloat 0, OscFloat 0, OscFloat 0,
                OscFloat 0, OscFloat 0, OscFloat 0, OscFloat 1]) #
           (a @ b @ c @ d @ e) @ [(''/VMC/Ext/Blend/Apply'', [])]) s"
    using run by simp
  ultimately show ?thesis by blast
qed

lemma mixed_face_send_all:
  "send_tracking_data now (Some mixed_face) s =
     send_all
       [(''/VMC/Ext/OK'', [OscInt 0, OscInt 3, OscInt 1]),
        (''/VMC/Ext/T'', [OscFloat (now - start_time s)]),
        (''/VMC/Ext/Root/Pos'',
           [OscString ''root'', OscFloat 0, OscFloat 0, OscFloat 0,
            OscFloat 0, OscFloat 0, OscFloat 0, OscFloat 1]),
        (''/VMC/Ext/Blend/Val'', [OscString ''eyeBlinkRight'', OscFloat 0]),
        (''/VMC/Ext/Blend/Val'', [OscString ''eyeBlinkLeft'', OscFloat 0]),
        (''/VMC/Ext/Blend/Val'', [OscString ''Blink_R'', OscFloat 0]),
        (''/VMC/Ext/Blend/Val'', [OscString ''Blink_L'', OscFloat 0]),
        (''/VMC/Ext/Blend/Val'', [OscString ''Blink'', OscFloat 0]),
        (''/VMC/Ext/Blend/Val'', [OscString ''mouthFrownLeft'', OscFloat 0.5]),
        (''/VMC/Ext/Blend/Val'', [OscString ''mouthFrownRight'', OscFloat 0.5]),
        (''/VMC/Ext/Blend/Apply'', [])] s"
  by (simp add: send_tracking_data_def mixed_face_def block_defs method_defs to_send_all)

lemma shapes_append: "shapes names (xs @ ys) = shapes names xs @ shapes names ys"
  by (simp add: shapes_def)

lemma bone_names_append: "bone_names (xs @ ys) = bone_names xs @ bone_names ys"
  by (simp add: bone_names_def)

lemma filter_none: "(\<And>m. m \<in> set ms \<Longrightarrow> \<not> P m) \<Longrightarrow> filter P ms = []"
  by (induction ms) auto

lemma shapes_bones: "list_all (is_bone xs) ms \<Longrightarrow> shapes names ms = []"
  unfolding shapes_def
  by (rule filter_none) (simp add: list_all_iff is_bone_def)

lemma bone_names_blend: "list_all (is_blend xs) ms \<Longrightarrow> bone_names ms = []"
proof -
  assume a: "list_all (is_blend xs) ms"
  have "filter (\<lambda>m. fst m = ''/VMC/Ext/Bone/Pos'') ms = []"
    by (rule filter_none) (use a in \<open>simp add: list_all_iff is_blend_def\<close>)
  then show ?thesis by (simp add: bone_names_def)
qed

lemma shapes_disjoint:
  assumes "list_all (is_blend xs) ms" and "set xs \<inter> set names = {}"
  shows "shapes names ms = []"
  unfolding shapes_def
proof (rule filter_none)
  fix m assume "m \<in> set ms"
  with assms(1) have "is_blend xs m" by (simp add: list_all_iff)
  then obtain name v where m: "snd m = [OscString name, OscFloat v]" "name \<in> set xs"
    unfolding is_blend_def by blast
  with assms(2) have "name \<notin> set names" by blast
  then have "hd (snd m) \<notin> set (map OscString names)" using m(1) by auto
  then show "\<not> (fst m = ''/VMC/Ext/Blend/Val'' \<and> hd (snd m) \<in> set (map OscString names))"
    by simp
qed

lemma bone_names_bones: "list_all (is_bone xs) ms \<Longrightarrow> set (bone_names ms) \<subseteq> OscString ` set xs"
  by (induction ms) (auto simp: bone_names_def is_bone_def)

lemma shapes_of_frame:
  assumes "list_all (is_bone xs) a" and "list_all (is_bone ys) b"
  shows "shapes names
           ([(''/VMC/Ext/OK'', ok_args), (''/VMC/Ext/T'', t_args), (''/VMC/Ext/Root/Pos'', root_args)]
            @ a @ b @ c @ d @ e @ [(''/VMC/Ext/Blend/Apply'', [])]) =
         shapes names c @ shapes names d @ shapes names e"
proof -
  have "shapes names [(''/VMC/Ext/OK'', ok_args), (''/VMC/Ext/T'', t_args),
          (''/VMC/Ext/Root/Pos'', root_args)] = []"
    by (simp add: shapes_def)
  moreover have "shapes names [(''/VMC/Ext/Blend/Apply'', [])] = []"
    by (simp add: shapes_def)
  ultimately show ?thesis
    by (simp only: shapes_append shapes_bones [OF assms(1)] shapes_bones [OF assms(2)]
        append_Nil append_Nil2)
qed

lemma bone_names_of_frame:
  assumes "list_all (is_blend xs) c" and "list_all (is_blend ys) d" and "list_all (is_blend zs) e"
  shows "bone_names
           ([(''/VMC/Ext/OK'', ok_args), (''/VMC/Ext/T'', t_args), (''/VMC/Ext/Root/Pos'', root_args)]
            @ a @ b @ c @ d @ e @ [(''/VMC/Ext/Blend/Apply'', [])]) =
         bone_names a @ bone_names b"
proof -
  have "bone_names [(''/VMC/Ext/OK'', ok_args), (''/VMC/Ext/T'', t_args),
          (''/VMC/Ext/Root/Pos'', root_args)] = []"
    by (simp add: bone_names_def)
  moreover have "bone_names [(''/VMC/Ext/Blend/Apply'', [])] = []"
    by (simp add: bone_names_def)
  ultimately show ?thesis
    by (simp only: bone_names_append bone_names_blend [OF assms(1)]
        bone_names_blend [OF assms(2)] bone_names_blend [OF assms(3)] append_Nil append_Nil2)
qed

lemma eye_bone_names:
  "sends (eye_bone name eye)
     (\<lambda>ms. bone_names ms = (if 3 \<le> length eye then [OscString name] else []))"
proof (cases "3 \<le> length eye")
  case False
  then show ?thesis
    by (simp add: eye_bone_def) (rule sends_skip, simp add: bone_names_def)
next
  case True
  obtain gx gy where g: "gaze_degrees eye = (gx, gy)" by (cases "gaze_degrees eye")
  obtain qx qy qz qw where q: "euler_to_quaternion gy gx 0 = (qx, qy, qz, qw)"
    by (cases "euler_to_quaternion gy gx 0")
  have "eye_bone name eye = send_bone_transform name 0 0 0 qx qy qz qw"
    using True by (simp add: eye_bone_def g q)
  moreover have "sends (send_bone_transform name 0 0 0 qx qy qz qw)
     (\<lambda>ms. bone_names ms = [OscString name])"
    unfolding send_bone_transform_def by (rule sends_msg) (simp add: bone_names_def)
  ultimately show ?thesis using True by simp
qed

lemma eye_bones_names:
  "sends (eye_bones face)
     (\<lambda>ms. bone_names ms =
        (case eye_state face of
           None \<Rightarrow> []
         | Some es \<Rightarrow>
             if 2 \<le> length es
             then (if 3 \<le> length (es ! 0) then [OscString ''RightEye''] else []) @
                  (if 3 \<le> length (es ! 1) then [OscString ''LeftEye''] else [])
             else []))"
proof (cases "eye_state face")
  case None
  then show ?thesis
    by (simp add: eye_bones_def) (rule sends_skip, simp add: bone_names_def)
next
  case (Some es)
  show ?thesis
  proof (cases "2 \<le> length es")
    case False
    then show ?thesis using Some
      by (simp add: eye_bones_def) (rule sends_skip, simp add: bone_names_def)
  next
    case True
    have "sends (then_do (eye_bone ''RightEye'' (es ! 0)) (eye_bone ''LeftEye'' (es ! 1)))
       (\<lambda>ms. bone_names ms =
          (if 3 \<le> length (es ! 0) then [OscString ''RightEye''] else []) @
          (if 3 \<le> length (es ! 1) then [OscString ''LeftEye''] else []))"
      by (rule sends_then [OF eye_bone_names eye_bone_names]) (simp only: bone_names_append)
    moreover have "eye_bones face =
        then_do (eye_bone ''RightEye'' (es ! 0)) (eye_bone ''LeftEye'' (es ! 1))"
      using Some True
      by (simp add: eye_bones_def run_seq_Cons run_seq_Nil)
         (rule ext, simp add: then_do_def skip_def split: prod.splits sum.splits)
    ultimately show ?thesis using Some True by simp
  qed
qed

text \<open>The bones of a frame: head and neck first, then the eyes, each on its own guard.\<close>

lemma frame_bone_names:
  assumes "reliable s"
  shows "\<exists>hn. set hn \<subseteq> {OscString ''Head'', OscString ''Neck''} \<and>
     bone_names (frame now (Some face) s) =
       hn @
       (case eye_state face of
          None \<Rightarrow> []
        | Some es \<Rightarrow>
            if 2 \<le> length es
            then (if 3 \<le> length (es ! 0) then [OscString ''RightEye''] else []) @
                 (if 3 \<le> length (es ! 1) then [OscString ''LeftEye''] else [])
            else [])"
proof -
  from frame_sends [where face = face and now = now,
      OF head_neck_all eye_bones_names eye_blinks_all facial_features_all eye_gaze_all]
  obtain a b c d e where
    a: "list_all (is_bone [''Head'', ''Neck'']) a"
    and b: "bone_names b =
        (case eye_state face of
           None \<Rightarrow> []
         | Some es \<Rightarrow>
             if 2 \<le> length es
             then (if 3 \<le> length (es ! 0) then [OscString ''RightEye''] else []) @
                  (if 3 \<le> length (es ! 1) then [OscString ''LeftEye''] else [])
             else [])"
    and c: "list_all (is_blend [''eyeBlinkRight'', ''eyeBlinkLeft'', ''Blink_R'', ''Blink_L'', ''Blink'']) c"
    and d: "list_all (is_blend [''jawOpen'', ''A'', ''Aa'', ''mouthSmileLeft'', ''mouthSmileRight'',
        ''mouthFrownLeft'', ''mouthFrownRight'', ''browInnerUp'', ''browDownLeft'',
        ''browDownRight'']) d"
    and e: "list_all (is_blend [''eyeLookOutRight'', ''eyeLookInRight'', ''eyeLookUpRight'',
        ''eyeLookDownRight'', ''EyeLookOutRight'', ''EyeLookInRight'', ''EyeLookUpRight'',
        ''EyeLookDownRight'', ''eyeLookInLeft'', ''eyeLookOutLeft'', ''eyeLookUpLeft'',
        ''eyeLookDownLeft'', ''EyeLookInLeft'', ''EyeLookOutLeft'', ''EyeLookUpLeft'',
        ''EyeLookDownLeft'']) e"
    and run: "send_tracking_data now (Some face) s =
        send_all
          ([(''/VMC/Ext/OK'', [OscInt (if success face then 1 else 0), OscInt 3, OscInt 1]),
            (''/VMC/Ext/T'', [OscFloat (now - start_time s)]),
            (''/VMC/Ext/Root/Pos'',
               [OscString ''root'', OscFloat 0, OscFloat 0, OscFloat 0,
                OscFloat 0, OscFloat 0, OscFloat 0, OscFloat 1])]
           @ a @ b @ c @ d @ e @ [(''/VMC/Ext/Blend/Apply'', [])]) s"
    by blast
  have "bone_names (frame now (Some face) s) = bone_names a @ bone_names b"
    unfolding frame_of_send_all(1) [OF assms run] by (rule bone_names_of_frame [OF c d e])
  moreover have "set (bone_names a) \<subseteq> {OscString ''Head'', OscString ''Neck''}"
    using bone_names_bones [OF a] by simp
  ultimately show ?thesis unfolding b by blast
qed

lemma frame_full:
  "\<exists>ms. send_tracking_data now face_arg s = send_all ms s \<and>
        frame now face_arg (unfailing s) = ms"
proof (cases face_arg)
  case None
  then show ?thesis
    by (intro exI [of _ "[]"]) (simp add: send_tracking_data_def frame_def emitted_def)
next
  case (Some face)
  from frame_shape [of now face] obtain body where
    run: "\<forall>s. send_tracking_data now (Some face) s =
        send_all
          ((''/VMC/Ext/OK'', [OscInt (if success face then 1 else 0), OscInt 3, OscInt 1]) #
           (''/VMC/Ext/T'', [OscFloat (now - start_time s)]) #
           (''/VMC/Ext/Root/Pos'',
               [OscString ''root'', OscFloat 0, OscFloat 0, OscFloat 0,
                OscFloat 0, OscFloat 0, OscFloat 0, OscFloat 1]) #
           body @ [(''/VMC/Ext/Blend/Apply'', [])]) s"
    by blast
  have rel: "reliable (unfailing s)" by (simp add: reliable_def unfailing_def)
  have st: "start_time (unfailing s) = start_time s" by (simp add: unfailing_def)
  from run have u: "send_tracking_data now (Some face) (unfailing s) =
        send_all
          ((''/VMC/Ext/OK'', [OscInt (if success face then 1 else 0), OscInt 3, OscInt 1]) #
           (''/VMC/Ext/T'', [OscFloat (now - start_time s)]) #
           (''/VMC/Ext/Root/Pos'',
               [OscString ''root'', OscFloat 0, OscFloat 0, OscFloat 0,
                OscFloat 0, OscFloat 0, OscFloat 0, OscFloat 1]) #
           body @ [(''/VMC/Ext/Blend/Apply'', [])]) (unfailing s)"
    unfolding st [symmetric] by blast
  show ?thesis unfolding Some
    using run frame_of_send_all(1) [OF rel u] by blast
qed

lemma lossy_scenario_A:
  "send_tracking_data 0 (Some scenario_A) lossy_sender =
     (Inl OSError, emit [(''/VMC/Ext/OK'', [OscInt 0, OscInt 3, OscInt 1])] lossy_sender)"
  unfolding scenario_A_send_all
  by (simp add: lossy_sender_def emit_def)

lemma eye_blinks_exact:
  "eye_blink face = Some (b0, b1) \<Longrightarrow>
   sends (eye_blinks face)
     (\<lambda>ms. ms =
        [(''/VMC/Ext/Blend/Val'', [OscString ''eyeBlinkRight'', OscFloat (1 - min 1 (max 0 b0))]),
         (''/VMC/Ext/Blend/Val'', [OscString ''eyeBlinkLeft'', OscFloat (1 - min 1 (max 0 b1))]),
         (''/VMC/Ext/Blend/Val'', [OscString ''Blink_R'', OscFloat (1 - min 1 (max 0 b0))]),
         (''/VMC/Ext/Blend/Val'', [OscString ''Blink_L'', OscFloat (1 - min 1 (max 0 b1))]),
         (''/VMC/Ext/Blend/Val'',
            [OscString ''Blink'',
             OscFloat ((1 - min 1 (max 0 b0) + (1 - min 1 (max 0 b1))) / 2)])])"
  unfolding sends_def
  by (simp add: eye_blinks_def Let_def send_blend_shape_def to_send_all)

lemma shapes_all:
  "list_all (\<lambda>m. fst m = ''/VMC/Ext/Blend/Val'' \<and> hd (snd m) \<in> set (map OscString names)) ms \<Longrightarrow>
   shapes names ms = ms"
  unfolding shapes_def by (induction ms) auto

lemma frame_blink_shapes:
  assumes "reliable s" and "eye_blink face = Some (b0, b1)"
  shows "shapes [''eyeBlinkRight'', ''eyeBlinkLeft'', ''Blink_R'', ''Blink_L'', ''Blink'']
           (frame now (Some face) s) =
        [(''/VMC/Ext/Blend/Val'', [OscString ''eyeBlinkRight'', OscFloat (1 - min 1 (max 0 b0))]),
         (''/VMC/Ext/Blend/Val'', [OscString ''eyeBlinkLeft'', OscFloat (1 - min 1 (max 0 b1))]),
         (''/VMC/Ext/Blend/Val'', [OscString ''Blink_R'', OscFloat (1 - min 1 (max 0 b0))]),
         (''/VMC/Ext/Blend/Val'', [OscString ''Blink_L'', OscFloat (1 - min 1 (max 0 b1))]),
         (''/VMC/Ext/Blend/Val'',
            [OscString ''Blink'',
             OscFloat ((1 - min 1 (max 0 b0) + (1 - min 1 (max 0 b1))) / 2)])]"
proof -
  from frame_sends [where face = face and now = now,
      OF head_neck_all eye_bones_all eye_blinks_exact [OF assms(2)] facial_features_all eye_gaze_all]
  obtain a b c d e where
    a: "list_all (is_bone [''Head'', ''Neck'']) a"
    and b: "list_all (is_bone [''RightEye'', ''LeftEye'']) b"
    and c: "c =
        [(''/VMC/Ext/Blend/Val'', [OscString ''eyeBlinkRight'', OscFloat (1 - min 1 (max 0 b0))]),
         (''/VMC/Ext/Blend/Val'', [OscString ''eyeBlinkLeft'', OscFloat (1 - min 1 (max 0 b1))]),
         (''/VMC/Ext/Blend/Val'', [OscString ''Blink_R'', OscFloat (1 - min 1 (max 0 b0))]),
         (''/VMC/Ext/Blend/Val'', [OscString ''Blink_L'', OscFloat (1 - min 1 (max 0 b1))]),
         (''/VMC/Ext/Blend/Val'',
            [OscString ''Blink'',
             OscFloat ((1 - min 1 (max 0 b0) + (1 - min 1 (max 0 b1))) / 2)])]"
    and d: "list_all (is_blend [''jawOpen'', ''A'', ''Aa'', ''mouthSmileLeft'', ''mouthSmileRight'',
        ''mouthFrownLeft'', ''mouthFrownRight'', ''browInnerUp'', ''browDownLeft'',
        ''browDownRight'']) d"
    and e: "list_all (is_blend [''eyeLookOutRight'', ''eyeLookInRight'', ''eyeLookUpRight'',
        ''eyeLookDownRight'', ''EyeLookOutRight'', ''EyeLookInRight'', ''EyeLookUpRight'',
        ''EyeLookDownRight'', ''eyeLookInLeft'', ''eyeLookOutLeft'', ''eyeLookUpLeft'',
        ''eyeLookDownLeft'', ''EyeLookInLeft'', ''EyeLookOutLeft'', ''EyeLookUpLeft'',
        ''EyeLookDownLeft'']) e"
    and run: "send_tracking_data now (Some face) s =
        send_all
          ([(''/VMC/Ext/OK'', [OscInt (if success face then 1 else 0), OscInt 3, OscInt 1]),
            (''/VMC/Ext/T'', [OscFloat (now - start_time s)]),
            (''/VMC/Ext/Root/Pos'',
               [OscString ''root'', OscFloat 0, OscFloat 0, OscFloat 0,
                OscFloat 0, OscFloat 0, OscFloat 0, OscFloat 1])]
           @ a @ b @ c @ d @ e @ [(''/VMC/Ext/Blend/Apply'', [])]) s"
    by blast
  have sd: "shapes [''eyeBlinkRight'', ''eyeBlinkLeft'', ''Blink_R'', ''Blink_L'', ''Blink''] d = []"
    by (rule shapes_disjoint [OF d]) simp
  have se: "shapes [''eyeBlinkRight'', ''eyeBlinkLeft'', ''Blink_R'', ''Blink_L'', ''Blink''] e = []"
    by (rule shapes_disjoint [OF e]) simp
  have sc: "shapes [''eyeBlinkRight'', ''eyeBlinkLeft'', ''Blink_R'', ''Blink_L'', ''Blink''] c = c"
    unfolding c by (rule shapes_all) simp
  have "shapes [''eyeBlinkRight'', ''eyeBlinkLeft'', ''Blink_R'', ''Blink_L'', ''Blink'']
           (frame now (Some face) s) = c"
    unfolding frame_of_send_all(1) [OF assms(1) run]
    by (simp only: shapes_of_frame [OF a b] sd se sc append_Nil2)
  then show ?thesis unfolding c .
qed

lemma scenario_B_send_all:
  "send_tracking_data now (Some scenario_B) s =
     send_all
       [(''/VMC/Ext/OK'', [OscInt 0, OscInt 3, OscInt 1]),
        (''/VMC/Ext/T'', [OscFloat (now - start_time s)]),
        (''/VMC/Ext/Root/Pos'',
           [OscString ''root'', OscFloat 0, OscFloat 0, OscFloat 0,
            OscFloat 0, OscFloat 0, OscFloat 0, OscFloat 1]),
        (''/VMC/Ext/Blend/Val'', [OscString ''eyeBlinkRight'', OscFloat 0]),
        (''/VMC/Ext/Blend/Val'', [OscString ''eyeBlinkLeft'', OscFloat 0]),
        (''/VMC/Ext/Blend/Val'', [OscString ''Blink_R'', OscFloat 0]),
        (''/VMC/Ext/Blend/Val'', [OscString ''Blink_L'', OscFloat 0]),
        (''/VMC/Ext/Blend/Val'', [OscString ''Blink'', OscFloat 0]),
        (''/VMC/Ext/Blend/Apply'', [])] s"
  by (simp add: send_tracking_data_def scenario_B_def block_defs method_defs to_send_all)

lemma lossy_scenario_B:
  "send_tracking_data 0 (Some scenario_B) lossy_sender =
     (Inl OSError, emit [(''/VMC/Ext/OK'', [OscInt 0, OscInt 3, OscInt 1])] lossy_sender)"
  unfolding scenario_B_send_all
  by (simp add: lossy_sender_def emit_def)

lemma frame_shapes:
  assumes "reliable s" and "sends (eye_blinks face) P6" and "sends (facial_features face) P7"
    and "sends (eye_gaze_blend_shapes face) P8"
  shows "\<exists>c d e. P6 c \<and> P7 d \<and> P8 e \<and>
     shapes names (frame now (Some face) s) = shapes names c @ shapes names d @ shapes names e"
proof -
  from frame_sends [where face = face and now = now,
      OF head_neck_all eye_bones_all assms(2) assms(3) assms(4)]
  obtain a b c d e where
    a: "list_all (is_bone [''Head'', ''Neck'']) a"
    and b: "list_all (is_bone [''RightEye'', ''LeftEye'']) b"
    and c: "P6 c" and d: "P7 d" and e: "P8 e"
    and run: "send_tracking_data now (Some face) s =
        send_all
          ([(''/VMC/Ext/OK'', [OscInt (if success face then 1 else 0), OscInt 3, OscInt 1]),
            (''/VMC/Ext/T'', [OscFloat (now - start_time s)]),
            (''/VMC/Ext/Root/Pos'',
               [OscString ''root'', OscFloat 0, OscFloat 0, OscFloat 0,
                OscFloat 0, OscFloat 0, OscFloat 0, OscFloat 1])]
           @ a @ b @ c @ d @ e @ [(''/VMC/Ext/Blend/Apply'', [])]) s"
    by blast
  have "shapes names (frame now (Some face) s) =
      shapes names c @ shapes names d @ shapes names e"
    unfolding frame_of_send_all(1) [OF assms(1) run] by (rule shapes_of_frame [OF a b])
  with c d e show ?thesis by blast
qed





lemma wide_gaze_shapes:
  "sends (eye_gaze_blend_shapes wide_gaze)
     (\<lambda>ms. ms =
        [(''/VMC/Ext/Blend/Val'', [OscString ''eyeLookOutRight'', OscFloat 2]),
         (''/VMC/Ext/Blend/Val'', [OscString ''eyeLookInRight'', OscFloat 0]),
         (''/VMC/Ext/Blend/Val'', [OscString ''eyeLookUpRight'', OscFloat 0]),
         (''/VMC/Ext/Blend/Val'', [OscString ''eyeLookDownRight'', OscFloat 0]),
         (''/VMC/Ext/Blend/Val'', [OscString ''EyeLookOutRight'', OscFloat 2]),
         (''/VMC/Ext/Blend/Val'', [OscString ''EyeLookInRight'', OscFloat 0]),
         (''/VMC/Ext/Blend/Val'', [OscString ''EyeLookUpRight'', OscFloat 0]),
         (''/VMC/Ext/Blend/Val'', [OscString ''EyeLookDownRight'', OscFloat 0]),
         (''/VMC/Ext/Blend/Val'', [OscString ''eyeLookInLeft'', OscFloat 0]),
         (''/VMC/Ext/Blend/Val'', [OscString ''eyeLookOutLeft'', OscFloat 0]),
         (''/VMC/Ext/Blend/Val'', [OscString ''eyeLookUpLeft'', OscFloat 0]),
         (''/VMC/Ext/Blend/Val'', [OscString ''eyeLookDownLeft'', OscFloat 0]),
         (''/VMC/Ext/Blend/Val'', [OscString ''EyeLookInLeft'', OscFloat 0]),
         (''/VMC/Ext/Blend/Val'', [OscString ''EyeLookOutLeft'', OscFloat 0]),
         (''/VMC/Ext/Blend/Val'', [OscString ''EyeLookUpLeft'', OscFloat 0]),
         (''/VMC/Ext/Blend/Val'', [OscString ''EyeLookDownLeft'', OscFloat 0])])"
  unfolding sends_def
  by (simp add: eye_gaze_blend_shapes_def right_eye_gaze_shapes_def left_eye_gaze_shapes_def
      wide_gaze_def Let_def send_blend_shape_def to_send_all)

section \<open>The claims\<close>

text \<open>
  C9. Called with \<open>None\<close> for the face, \<^verbatim>\<open>send_tracking_data\<close> returns at once: the
  sender object is as before and nothing was handed to the socket, not even the
  availability message.
\<close>

theorem none_face_is_noop:
  "send_tracking_data now None s = (Inr (), s) \<and> frame now None s = []"
  by (simp add: send_tracking_data_def frame_def emitted_def)

text \<open>
  C7. Whatever the pixel offsets of an eye entry are, the horizontal angle used for the
  eye bone lies in \<open>[-15, 15]\<close> and the vertical one in \<open>[-10, 10]\<close>.
\<close>

theorem gaze_degrees_bounded:
  "- 15 \<le> fst (gaze_degrees eye) \<and> fst (gaze_degrees eye) \<le> 15 \<and>
   - 10 \<le> snd (gaze_degrees eye) \<and> snd (gaze_degrees eye) \<le> 10"
  by (simp add: gaze_degrees_def Let_def max_def min_def)

text \<open>
  C3, as amended. For a snapshot with \<open>success = False\<close> and every optional field absent,
  on a transport that does not fail, the call returns normally and the frame is exactly
  \<open>OK (0, 3, 1)\<close>, \<open>T\<close>, \<open>Root/Pos\<close> and the closing \<open>Blend/Apply\<close>: no \<open>Bone/Pos\<close>
  and no \<open>Blend/Val\<close> message.
\<close>

theorem scenario_A_frame:
  "reliable s \<Longrightarrow>
   fst (send_tracking_data now (Some scenario_A) s) = Inr () \<and>
   frame now (Some scenario_A) s =
     [(''/VMC/Ext/OK'', [OscInt 0, OscInt 3, OscInt 1]),
      (''/VMC/Ext/T'', [OscFloat (now - start_time s)]),
      (''/VMC/Ext/Root/Pos'',
         [OscString ''root'', OscFloat 0, OscFloat 0, OscFloat 0,
          OscFloat 0, OscFloat 0, OscFloat 0, OscFloat 1]),
      (''/VMC/Ext/Blend/Apply'', [])]"
  using frame_of_send_all [OF _ scenario_A_send_all] by simp

text \<open>The frame of scenario A on a sender started at time 0, at time 0.\<close>

theorem scenario_A_frame_witness:
  "reliable test_sender \<and>
   frame 0 (Some scenario_A) test_sender =
     [(''/VMC/Ext/OK'', [OscInt 0, OscInt 3, OscInt 1]),
      (''/VMC/Ext/T'', [OscFloat 0]),
      (''/VMC/Ext/Root/Pos'',
         [OscString ''root'', OscFloat 0, OscFloat 0, OscFloat 0,
          OscFloat 0, OscFloat 0, OscFloat 0, OscFloat 1]),
      (''/VMC/Ext/Blend/Apply'', [])]"
  using scenario_A_frame [OF reliable_test_sender, of 0]
  by (simp add: reliable_test_sender) (simp add: test_sender_def)

text \<open>
  C3 as stated fails: the frame of scenario A holds a message whose address is none of
  \<open>OK\<close>, \<open>T\<close> and \<open>Root/Pos\<close> (the \<open>Blend/Apply\<close> that closes every frame).
\<close>

theorem scenario_A_counterexample:
  "\<not> set (map fst (frame 0 (Some scenario_A) test_sender))
       \<subseteq> {''/VMC/Ext/OK'', ''/VMC/Ext/T'', ''/VMC/Ext/Root/Pos''}"
  using frame_of_send_all(1) [OF reliable_test_sender scenario_A_send_all, of 0]
  by simp

text \<open>
  C10. In every frame, whatever the snapshot and whatever the transport does, each
  \<open>Blend/Val\<close> message handed to the socket carries a name and a weight that is not
  negative.
\<close>

theorem blend_weights_nonnegative:
  "\<forall>m\<in>set (frame now face_arg s).
     fst m = ''/VMC/Ext/Blend/Val'' \<longrightarrow>
     (\<exists>name v. snd m = [OscString name, OscFloat v] \<and> 0 \<le> v)"
proof (cases face_arg)
  case None
  then show ?thesis by (simp add: frame_def send_tracking_data_def emitted_def)
next
  case (Some face)
  from frame_shape [of now face] obtain body where
    body: "list_all (\<lambda>m. (\<exists>names. is_bone names m) \<or> (\<exists>names. is_blend names m)) body"
    and run: "send_tracking_data now (Some face) s =
        send_all
          ((''/VMC/Ext/OK'', [OscInt (if success face then 1 else 0), OscInt 3, OscInt 1]) #
           (''/VMC/Ext/T'', [OscFloat (now - start_time s)]) #
           (''/VMC/Ext/Root/Pos'',
               [OscString ''root'', OscFloat 0, OscFloat 0, OscFloat 0,
                OscFloat 0, OscFloat 0, OscFloat 0, OscFloat 1]) #
           body @ [(''/VMC/Ext/Blend/Apply'', [])]) s"
    by blast
  from frame_take [OF run] obtain k where
    k: "frame now (Some face) s =
        take k ((''/VMC/Ext/OK'', [OscInt (if success face then 1 else 0), OscInt 3, OscInt 1]) #
           (''/VMC/Ext/T'', [OscFloat (now - start_time s)]) #
           (''/VMC/Ext/Root/Pos'',
               [OscString ''root'', OscFloat 0, OscFloat 0, OscFloat 0,
                OscFloat 0, OscFloat 0, OscFloat 0, OscFloat 1]) #
           body @ [(''/VMC/Ext/Blend/Apply'', [])])"
    by blast
  show ?thesis
  proof (intro ballI impI)
    fix m assume m: "m \<in> set (frame now face_arg s)" and blend: "fst m = ''/VMC/Ext/Blend/Val''"
    from m have "m \<in> set ((''/VMC/Ext/OK'', [OscInt (if success face then 1 else 0), OscInt 3, OscInt 1]) #
           (''/VMC/Ext/T'', [OscFloat (now - start_time s)]) #
           (''/VMC/Ext/Root/Pos'',
               [OscString ''root'', OscFloat 0, OscFloat 0, OscFloat 0,
                OscFloat 0, OscFloat 0, OscFloat 0, OscFloat 1]) #
           body @ [(''/VMC/Ext/Blend/Apply'', [])])"
      unfolding Some k by (rule in_set_takeD)
    with blend have "m \<in> set body" by auto
    with body have "(\<exists>names. is_bone names m) \<or> (\<exists>names. is_blend names m)"
      by (simp add: list_all_iff)
    with blend obtain names where "is_blend names m"
      by (auto dest: is_bone_address)
    then show "\<exists>name v. snd m = [OscString name, OscFloat v] \<and> 0 \<le> v"
      unfolding is_blend_def by blast
  qed
qed

text \<open>A frown of weight 0.5, from \<open>mouth_wide = -0.5\<close>.\<close>

theorem blend_weights_nonnegative_witness:
  "(''/VMC/Ext/Blend/Val'', [OscString ''mouthFrownLeft'', OscFloat 0.5])
     \<in> set (frame 0 (Some mixed_face) test_sender) \<and>
   (\<exists>name v. [OscString ''mouthFrownLeft'', OscFloat 0.5] = [OscString name, OscFloat v] \<and> 0 \<le> v)"
proof -
  have "(''/VMC/Ext/Blend/Val'', [OscString ''mouthFrownLeft'', OscFloat 0.5])
     \<in> set (frame 0 (Some mixed_face) test_sender)"
    using frame_of_send_all(1) [OF reliable_test_sender mixed_face_send_all, of 0] by simp
  with blend_weights_nonnegative [of 0 "Some mixed_face" test_sender] show ?thesis
    by fastforce
qed

text \<open>
  C2, amended. On a transport whose sends succeed, the call returns normally; the frame
  starts with the \<open>OK\<close> message and ends with \<open>Blend/Apply\<close>, and no other message of the
  frame is a \<open>Blend/Apply\<close>, so that every \<open>Blend/Val\<close> comes before it.
\<close>

theorem message_order:
  "reliable s \<Longrightarrow>
   fst (send_tracking_data now (Some face) s) = Inr () \<and>
   (\<exists>body.
      frame now (Some face) s =
        (''/VMC/Ext/OK'', [OscInt (if success face then 1 else 0), OscInt 3, OscInt 1]) #
        body @ [(''/VMC/Ext/Blend/Apply'', [])] \<and>
      ''/VMC/Ext/Blend/Apply'' \<notin> set (map fst body))"
proof -
  assume rel: "reliable s"
  from frame_shape [of now face] obtain body where
    body: "list_all (\<lambda>m. (\<exists>names. is_bone names m) \<or> (\<exists>names. is_blend names m)) body"
    and run: "send_tracking_data now (Some face) s =
        send_all
          ((''/VMC/Ext/OK'', [OscInt (if success face then 1 else 0), OscInt 3, OscInt 1]) #
           (''/VMC/Ext/T'', [OscFloat (now - start_time s)]) #
           (''/VMC/Ext/Root/Pos'',
               [OscString ''root'', OscFloat 0, OscFloat 0, OscFloat 0,
                OscFloat 0, OscFloat 0, OscFloat 0, OscFloat 1]) #
           body @ [(''/VMC/Ext/Blend/Apply'', [])]) s"
    by blast
  note fr = frame_of_send_all [OF rel run]
  have "fst m \<noteq> ''/VMC/Ext/Blend/Apply''" if "m \<in> set body" for m
  proof -
    from body that have "(\<exists>names. is_bone names m) \<or> (\<exists>names. is_blend names m)"
      by (simp add: list_all_iff)
    then have "fst m = ''/VMC/Ext/Bone/Pos'' \<or> fst m = ''/VMC/Ext/Blend/Val''"
      by (auto dest: is_bone_address is_blend_address)
    then show ?thesis by auto
  qed
  then have "''/VMC/Ext/Blend/Apply'' \<notin> set (map fst body)"
    by (rule not_in_addresses)
  then have "''/VMC/Ext/Blend/Apply'' \<notin> set (map fst
     ((''/VMC/Ext/T'', [OscFloat (now - start_time s)]) #
           (''/VMC/Ext/Root/Pos'',
               [OscString ''root'', OscFloat 0, OscFloat 0, OscFloat 0,
                OscFloat 0, OscFloat 0, OscFloat 0, OscFloat 1]) # body))"
    by simp
  then show ?thesis using fr
    by (intro conjI exI [of _ "(''/VMC/Ext/T'', [OscFloat (now - start_time s)]) #
           (''/VMC/Ext/Root/Pos'',
               [OscString ''root'', OscFloat 0, OscFloat 0, OscFloat 0,
                OscFloat 0, OscFloat 0, OscFloat 0, OscFloat 1]) # body"]) simp_all
qed

text \<open>The order of the frame of a snapshot with blinks and one feature.\<close>

theorem message_order_witness:
  "reliable test_sender \<and>
   fst (send_tracking_data 0 (Some mixed_face) test_sender) = Inr () \<and>
   (\<exists>body.
      frame 0 (Some mixed_face) test_sender =
        (''/VMC/Ext/OK'', [OscInt 0, OscInt 3, OscInt 1]) #
        body @ [(''/VMC/Ext/Blend/Apply'', [])] \<and>
      ''/VMC/Ext/Blend/Apply'' \<notin> set (map fst body))"
  using message_order [OF reliable_test_sender, of 0 mixed_face]
  by (simp add: reliable_test_sender) (simp add: mixed_face_def)

text \<open>
  C2 as stated fails: on the socket that refuses the timestamp the frame of scenario A is
  not empty, its last message is the \<open>OK\<close> message and it holds no \<open>Blend/Apply\<close>.
\<close>

theorem message_order_counterexample:
  "frame 0 (Some scenario_A) lossy_sender \<noteq> [] \<and>
   fst (last (frame 0 (Some scenario_A) lossy_sender)) = ''/VMC/Ext/OK'' \<and>
   ''/VMC/Ext/Blend/Apply'' \<notin> set (map fst (frame 0 (Some scenario_A) lossy_sender))"
  by (simp add: frame_def lossy_scenario_A emitted_emit)

text \<open>
  C4, amended. The two eye bones are guarded one by one. On a transport whose sends
  succeed, \<open>RightEye\<close> is in the frame exactly when \<^verbatim>\<open>eye_state\<close> is present, has at
  least two entries and entry 0 has at least three values; \<open>LeftEye\<close> exactly when
  \<^verbatim>\<open>eye_state\<close> is present, has at least two entries and entry 1 has at least three
  values. The length of the other entry plays no part.
\<close>

theorem eye_bones_per_eye:
  "reliable s \<Longrightarrow>
   (OscString ''RightEye'' \<in> set (bone_names (frame now (Some face) s)) \<longleftrightarrow>
      (\<exists>es. eye_state face = Some es \<and> 2 \<le> length es \<and> 3 \<le> length (es ! 0))) \<and>
   (OscString ''LeftEye'' \<in> set (bone_names (frame now (Some face) s)) \<longleftrightarrow>
      (\<exists>es. eye_state face = Some es \<and> 2 \<le> length es \<and> 3 \<le> length (es ! 1)))"
proof -
  assume "reliable s"
  from frame_bone_names [OF this, of now face]
  obtain hn where hn: "set hn \<subseteq> {OscString ''Head'', OscString ''Neck''}"
    and fr: "bone_names (frame now (Some face) s) =
       hn @
       (case eye_state face of
          None \<Rightarrow> []
        | Some es \<Rightarrow>
            if 2 \<le> length es
            then (if 3 \<le> length (es ! 0) then [OscString ''RightEye''] else []) @
                 (if 3 \<le> length (es ! 1) then [OscString ''LeftEye''] else [])
            else [])"
    by blast
  have r: "OscString ''RightEye'' \<notin> set hn" and l: "OscString ''LeftEye'' \<notin> set hn"
    using hn by auto
  show ?thesis
  proof (cases "eye_state face")
    case None
    then show ?thesis unfolding fr using r l by simp
  next
    case (Some es)
    then show ?thesis unfolding fr using r l by simp
  qed
qed

text \<open>The right eye bone alone, for the snapshot with a short left entry.\<close>

theorem eye_bones_per_eye_witness:
  "reliable test_sender \<and>
   OscString ''RightEye'' \<in> set (bone_names (frame 0 (Some one_short_eye) test_sender)) \<and>
   OscString ''LeftEye'' \<notin> set (bone_names (frame 0 (Some one_short_eye) test_sender))"
  using eye_bones_per_eye [OF reliable_test_sender, of 0 one_short_eye]
  by (simp add: reliable_test_sender one_short_eye_def)

text \<open>
  C4 as stated fails: entry 1 of \<^verbatim>\<open>eye_state\<close> has fewer than three values, and the
  frame still holds the \<open>RightEye\<close> bone.
\<close>

theorem eye_bones_counterexample:
  "eye_state one_short_eye = Some [[1, 16, 16, 1], [1, 16]] \<and>
   OscString ''RightEye'' \<in> set (bone_names (frame 0 (Some one_short_eye) test_sender))"
proof -
  from frame_bone_names [OF reliable_test_sender, of 0 one_short_eye]
  obtain hn where
    "bone_names (frame 0 (Some one_short_eye) test_sender) = hn @ [OscString ''RightEye'']"
    by (auto simp: one_short_eye_def)
  then show ?thesis by (simp add: one_short_eye_def)
qed

text \<open>
  C8, amended. Nothing catches the exception of a send. \<^verbatim>\<open>send_tracking_data\<close> raises
  exactly when the socket refuses one of the messages of the frame, given the messages
  sent before it; and when it raises, what was sent is a proper prefix of the frame,
  cut at the refused message: no later message of the frame is sent.
\<close>

theorem transport_failure_reaches_caller:
  "(raised now face_arg s \<longleftrightarrow>
      (\<exists>k<length (frame now face_arg (unfailing s)).
          sendto_fails (client s)
            (sent (client s) @ take k (frame now face_arg (unfailing s)))
            (frame now face_arg (unfailing s) ! k))) \<and>
   (raised now face_arg s \<longrightarrow>
      length (frame now face_arg s) < length (frame now face_arg (unfailing s)) \<and>
      frame now face_arg s =
        take (length (frame now face_arg s)) (frame now face_arg (unfailing s)) \<and>
      sendto_fails (client s)
        (sent (client s) @ frame now face_arg s)
        (frame now face_arg (unfailing s) ! length (frame now face_arg s)))"
proof -
  from frame_full [of now face_arg s] obtain ms where
    run: "send_tracking_data now face_arg s = send_all ms s"
    and full: "frame now face_arg (unfailing s) = ms"
    by blast
  from frame_take [OF run] obtain k where k: "k \<le> length ms"
    "frame now face_arg s = take k ms"
    "raised now face_arg s \<longleftrightarrow> k < length ms"
    "k < length ms \<longrightarrow> sendto_fails (client s) (sent (client s) @ take k ms) (ms ! k)"
    "\<forall>j<k. \<not> sendto_fails (client s) (sent (client s) @ take j ms) (ms ! j)"
    by blast
  have len: "length (frame now face_arg s) = k" using k(1) k(2) by simp
  have a: "raised now face_arg s \<longleftrightarrow>
      (\<exists>j<length ms. sendto_fails (client s) (sent (client s) @ take j ms) (ms ! j))"
  proof
    assume "raised now face_arg s"
    then show "\<exists>j<length ms. sendto_fails (client s) (sent (client s) @ take j ms) (ms ! j)"
      using k(3) k(4) by blast
  next
    assume "\<exists>j<length ms. sendto_fails (client s) (sent (client s) @ take j ms) (ms ! j)"
    then obtain j where j: "j < length ms"
      "sendto_fails (client s) (sent (client s) @ take j ms) (ms ! j)" by blast
    with k(5) have "\<not> j < k" by blast
    with j(1) have "k < length ms" by simp
    then show "raised now face_arg s" using k(3) by simp
  qed
  have b: "raised now face_arg s \<longrightarrow>
      k < length ms \<and> take k ms = take k ms \<and>
      sendto_fails (client s) (sent (client s) @ take k ms) (ms ! k)"
    using k(3) k(4) by simp
  show ?thesis unfolding full len unfolding k(2) using a b by simp
qed

text \<open>Scenario A on the socket that refuses the timestamp.\<close>

theorem transport_failure_reaches_caller_witness:
  "raised 0 (Some scenario_A) lossy_sender \<and>
   length (frame 0 (Some scenario_A) lossy_sender)
     < length (frame 0 (Some scenario_A) (unfailing lossy_sender))"
proof -
  have "raised 0 (Some scenario_A) lossy_sender"
    by (simp add: raised_def lossy_scenario_A)
  with transport_failure_reaches_caller [of 0 "Some scenario_A" lossy_sender]
  show ?thesis by simp
qed

text \<open>
  C8 as stated fails: on the socket that refuses the timestamp the call raises, and
  only the availability message of the frame was sent.
\<close>

theorem transport_failure_counterexample:
  "raised 0 (Some scenario_A) lossy_sender \<and>
   frame 0 (Some scenario_A) lossy_sender = [(''/VMC/Ext/OK'', [OscInt 0, OscInt 3, OscInt 1])]"
  by (simp add: raised_def frame_def lossy_scenario_A emitted_emit)

text \<open>
  C5, amended. On a transport whose sends succeed, a snapshot whose \<^verbatim>\<open>eye_blink\<close> is
  present with both openness values in \<open>[0, 1]\<close> puts exactly five blink blend shapes in
  the frame: \<open>eyeBlinkRight\<close>, \<open>eyeBlinkLeft\<close>, \<open>Blink_R\<close>, \<open>Blink_L\<close> and \<open>Blink\<close>, in this
  order. The right ones carry one minus the right openness, the left ones one minus the
  left openness, and \<open>Blink\<close> the mean of the two.
\<close>

theorem blink_shapes:
  "reliable s \<Longrightarrow> eye_blink face = Some (r, l) \<Longrightarrow>
   0 \<le> r \<Longrightarrow> r \<le> 1 \<Longrightarrow> 0 \<le> l \<Longrightarrow> l \<le> 1 \<Longrightarrow>
   shapes [''eyeBlinkRight'', ''eyeBlinkLeft'', ''Blink_R'', ''Blink_L'', ''Blink'']
     (frame now (Some face) s) =
     [(''/VMC/Ext/Blend/Val'', [OscString ''eyeBlinkRight'', OscFloat (1 - r)]),
      (''/VMC/Ext/Blend/Val'', [OscString ''eyeBlinkLeft'', OscFloat (1 - l)]),
      (''/VMC/Ext/Blend/Val'', [OscString ''Blink_R'', OscFloat (1 - r)]),
      (''/VMC/Ext/Blend/Val'', [OscString ''Blink_L'', OscFloat (1 - l)]),
      (''/VMC/Ext/Blend/Val'', [OscString ''Blink'', OscFloat (((1 - r) + (1 - l)) / 2)])]"
proof -
  assume rel: "reliable s" and eb: "eye_blink face = Some (r, l)"
    and "0 \<le> r" "r \<le> 1" "0 \<le> l" "l \<le> 1"
  then have "min 1 (max 0 r) = r" "min 1 (max 0 l) = l" by simp_all
  with frame_blink_shapes [OF rel eb, of now] show ?thesis by simp
qed

text \<open>Scenario B: all five blink blend shapes are 0.\<close>

theorem blink_shapes_witness:
  "shapes [''eyeBlinkRight'', ''eyeBlinkLeft'', ''Blink_R'', ''Blink_L'', ''Blink'']
     (frame 0 (Some scenario_B) test_sender) =
     [(''/VMC/Ext/Blend/Val'', [OscString ''eyeBlinkRight'', OscFloat 0]),
      (''/VMC/Ext/Blend/Val'', [OscString ''eyeBlinkLeft'', OscFloat 0]),
      (''/VMC/Ext/Blend/Val'', [OscString ''Blink_R'', OscFloat 0]),
      (''/VMC/Ext/Blend/Val'', [OscString ''Blink_L'', OscFloat 0]),
      (''/VMC/Ext/Blend/Val'', [OscString ''Blink'', OscFloat 0])]"
  using blink_shapes [OF reliable_test_sender, of scenario_B 1 1 0]
  by (simp add: scenario_B_def)

text \<open>
  C5 as stated fails: on the socket that refuses the timestamp, the frame of scenario B
  holds none of the five blink blend shapes.
\<close>

theorem blink_shapes_counterexample:
  "shapes [''eyeBlinkRight'', ''eyeBlinkLeft'', ''Blink_R'', ''Blink_L'', ''Blink'']
     (frame 0 (Some scenario_B) lossy_sender) = []"
  by (simp add: frame_def lossy_scenario_B emitted_emit shapes_def)




text \<open>
  C1. The eye gaze blend shapes are cut at 0 from below and not at 1 from above: for the
  right eye entry \<open>[1, 16, 48, 1]\<close> the weight sent under \<open>eyeLookOutRight\<close> and under
  \<open>EyeLookOutRight\<close> is 2.
\<close>

theorem gaze_weight_exceeds_one:
  "shapes [''eyeLookOutRight'', ''EyeLookOutRight''] (frame 0 (Some wide_gaze) test_sender) =
     [(''/VMC/Ext/Blend/Val'', [OscString ''eyeLookOutRight'', OscFloat 2]),
      (''/VMC/Ext/Blend/Val'', [OscString ''EyeLookOutRight'', OscFloat 2])]"
proof -
  from frame_shapes [where names = "[''eyeLookOutRight'', ''EyeLookOutRight'']" and now = 0,
      OF reliable_test_sender eye_blinks_all facial_features_all wide_gaze_shapes]
  obtain c d e where
    c: "list_all (is_blend [''eyeBlinkRight'', ''eyeBlinkLeft'', ''Blink_R'', ''Blink_L'', ''Blink'']) c"
    and d: "list_all (is_blend [''jawOpen'', ''A'', ''Aa'', ''mouthSmileLeft'', ''mouthSmileRight'',
        ''mouthFrownLeft'', ''mouthFrownRight'', ''browInnerUp'', ''browDownLeft'',
        ''browDownRight'']) d"
    and e: "e =
        [(''/VMC/Ext/Blend/Val'', [OscString ''eyeLookOutRight'', OscFloat 2]),
         (''/VMC/Ext/Blend/Val'', [OscString ''eyeLookInRight'', OscFloat 0]),
         (''/VMC/Ext/Blend/Val'', [OscString ''eyeLookUpRight'', OscFloat 0]),
         (''/VMC/Ext/Blend/Val'', [OscString ''eyeLookDownRight'', OscFloat 0]),
         (''/VMC/Ext/Blend/Val'', [OscString ''EyeLookOutRight'', OscFloat 2]),
         (''/VMC/Ext/Blend/Val'', [OscString ''EyeLookInRight'', OscFloat 0]),
         (''/VMC/Ext/Blend/Val'', [OscString ''EyeLookUpRight'', OscFloat 0]),
         (''/VMC/Ext/Blend/Val'', [OscString ''EyeLookDownRight'', OscFloat 0]),
         (''/VMC/Ext/Blend/Val'', [OscString ''eyeLookInLeft'', OscFloat 0]),
         (''/VMC/Ext/Blend/Val'', [OscString ''eyeLookOutLeft'', OscFloat 0]),
         (''/VMC/Ext/Blend/Val'', [OscString ''eyeLookUpLeft'', OscFloat 0]),
         (''/VMC/Ext/Blend/Val'', [OscString ''eyeLookDownLeft'', OscFloat 0]),
         (''/VMC/Ext/Blend/Val'', [OscString ''EyeLookInLeft'', OscFloat 0]),
         (''/VMC/Ext/Blend/Val'', [OscString ''EyeLookOutLeft'', OscFloat 0]),
         (''/VMC/Ext/Blend/Val'', [OscString ''EyeLookUpLeft'', OscFloat 0]),
         (''/VMC/Ext/Blend/Val'', [OscString ''EyeLookDownLeft'', OscFloat 0])]"
    and fr: "shapes [''eyeLookOutRight'', ''EyeLookOutRight''] (frame 0 (Some wide_gaze) test_sender) =
        shapes [''eyeLookOutRight'', ''EyeLookOutRight''] c @
        shapes [''eyeLookOutRight'', ''EyeLookOutRight''] d @
        shapes [''eyeLookOutRight'', ''EyeLookOutRight''] e"
    by blast
  have sc: "shapes [''eyeLookOutRight'', ''EyeLookOutRight''] c = []"
    by (rule shapes_disjoint [OF c]) simp
  have sd: "shapes [''eyeLookOutRight'', ''EyeLookOutRight''] d = []"
    by (rule shapes_disjoint [OF d]) simp
  have se: "shapes [''eyeLookOutRight'', ''EyeLookOutRight''] e =
     [(''/VMC/Ext/Blend/Val'', [OscString ''eyeLookOutRight'', OscFloat 2]),
      (''/VMC/Ext/Blend/Val'', [OscString ''EyeLookOutRight'', OscFloat 2])]"
    unfolding e by (simp add: shapes_def)
  show ?thesis unfolding fr sc sd append_Nil by (rule se)
qed

end
